theory Spec2Isabelle
  imports Main "HOL-Library.Sublist"
begin

section \<open>JavaScript values\<close>

text \<open>
  The transform in \<^verbatim>\<open>src/site/_collections/algolia.js\<close> reads loosely typed
  front matter. A field of a content entry holds \<^verbatim>\<open>undefined\<close> (also: the
  property is missing), \<^verbatim>\<open>null\<close>, a boolean, a string or an array of such
  values. Numbers are IEEE doubles and are left out of the value type; objects
  appear only at the places where the source dereferences them (\<^verbatim>\<open>item.data\<close>,
  \<^verbatim>\<open>data.page\<close>, \<^verbatim>\<open>template.frontMatter\<close>, ...) and are records there, with
  \<open>None\<close> for an object that is \<^verbatim>\<open>undefined\<close>. A string is a list of code
  units; \<open>length\<close> counts them, as \<^verbatim>\<open>.length\<close> does.
\<close>

datatype jsval = JUndefined | JNull | JBool bool | JStr string | JArr "jsval list"

text \<open>
  Every exception this file can raise is a \<^verbatim>\<open>TypeError\<close>: a property read on
  \<^verbatim>\<open>undefined\<close>/\<^verbatim>\<open>null\<close>, or a call of something that is not a function. The
  argument names the property that was being read or called.
\<close>

datatype error = TypeError string

text \<open>Truthiness (\<^verbatim>\<open>ToBoolean\<close>): an empty array is truthy, an empty string is not.\<close>

fun truthy :: "jsval \<Rightarrow> bool" where
  "truthy JUndefined = False"
| "truthy JNull = False"
| "truthy (JBool b) = b"
| "truthy (JStr s) = (s \<noteq> [])"
| "truthy (JArr xs) = True"

fun isArray :: "jsval \<Rightarrow> bool" where
  "isArray (JArr xs) = True"
| "isArray v = False"

text \<open>\<^verbatim>\<open>Array.prototype.join\<close> on strings that are already converted.\<close>

fun join :: "string \<Rightarrow> string list \<Rightarrow> string" where
  "join sep [] = []"
| "join sep [s] = s"
| "join sep (s # t # ss) = s @ sep @ join sep (t # ss)"

text \<open>
  \<^verbatim>\<open>ToString\<close>. An array converts to its elements joined by commas, where an
  element that is \<^verbatim>\<open>undefined\<close> or \<^verbatim>\<open>null\<close> contributes the empty string.
\<close>

fun toString :: "jsval \<Rightarrow> string" where
  "toString JUndefined = ''undefined''"
| "toString JNull = ''null''"
| "toString (JBool b) = (if b then ''true'' else ''false'')"
| "toString (JStr s) = s"
| "toString (JArr xs) =
     join '','' (map (\<lambda>v. if v = JUndefined \<or> v = JNull then [] else toString v) xs)"

text \<open>
  \<^verbatim>\<open>v + s\<close> for a string \<open>s\<close>: the other operand is converted to a string and the
  two are concatenated.
\<close>

definition plus_str :: "jsval \<Rightarrow> string \<Rightarrow> string" where
  "plus_str v s = toString v @ s"

section \<open>The text limiter\<close>

definition newline :: char where
  "newline = CHR 0x0A"

text \<open>
  \<^verbatim>\<open>lastIndexOf(x, position)\<close> for a single searched element and a position that is
  a non-negative whole number: the scan starts at \<open>min position (length - 1)\<close> and
  walks down to index 0; the answer is \<open>-1\<close> when nothing matches. Strings and
  arrays share the algorithm (an array compares with \<^verbatim>\<open>===\<close>).
\<close>

fun lastIndexFrom :: "'a list \<Rightarrow> 'a \<Rightarrow> nat \<Rightarrow> int" where
  "lastIndexFrom s x 0 = (if s ! 0 = x then 0 else - 1)"
| "lastIndexFrom s x (Suc k) = (if s ! Suc k = x then int (Suc k) else lastIndexFrom s x k)"

definition lastIndexOf :: "'a list \<Rightarrow> 'a \<Rightarrow> nat \<Rightarrow> int" where
  "lastIndexOf s x position =
     (if length s < 1 then - 1 else lastIndexFrom s x (min position (length s - 1)))"

text \<open>
  \<^verbatim>\<open>slice(start, end)\<close>: a negative index counts from the end, both ends are
  clamped to the sequence.
\<close>

definition slice :: "'a list \<Rightarrow> int \<Rightarrow> int \<Rightarrow> 'a list" where
  "slice s start end =
     (let len = int (length s);
          from = (if start < 0 then max (len + start) 0 else min start len);
          to = (if end < 0 then max (len + end) 0 else min end len)
      in take (nat (to - from)) (drop (nat from) s))"

text \<open>
  \<^verbatim>\<open>limitText(fulltext, limit = 7500)\<close> on a string. The bound is a length, a
  whole number of code units that is not negative; every call in the source
  takes the default.
\<close>

definition default_limit :: nat where
  "default_limit = 7500"

definition limitText :: "string \<Rightarrow> nat \<Rightarrow> string" where
  "limitText fulltext limit =
     (if length fulltext \<le> limit then fulltext
      else
        let newlineIndex = lastIndexOf fulltext newline limit;
            newlineIndex = (if newlineIndex = - 1 then int limit else newlineIndex)
        in slice fulltext 0 newlineIndex)"

text \<open>
  What the same function does when a caller hands it a value that need not be
  a string, as the author and tag mappers do with \<^verbatim>\<open>description\<close>. Reading
  \<^verbatim>\<open>.length\<close> of \<^verbatim>\<open>undefined\<close> or \<^verbatim>\<open>null\<close> throws. A boolean has no
  \<^verbatim>\<open>length\<close>, the comparison with the limit is false and the call of
  \<^verbatim>\<open>lastIndexOf\<close> throws. An array has \<^verbatim>\<open>length\<close>, \<^verbatim>\<open>lastIndexOf\<close> and
  \<^verbatim>\<open>slice\<close>, so it is cut like a string, at an element that is the string
  \<^verbatim>\<open>'\n'\<close>.
\<close>

fun limitText_val :: "jsval \<Rightarrow> nat \<Rightarrow> error + jsval" where
  "limitText_val JUndefined limit = Inl (TypeError ''length'')"
| "limitText_val JNull limit = Inl (TypeError ''length'')"
| "limitText_val (JBool b) limit = Inl (TypeError ''lastIndexOf'')"
| "limitText_val (JStr fulltext) limit = Inr (JStr (limitText fulltext limit))"
| "limitText_val (JArr fulltext) limit =
     Inr (JArr
       (if length fulltext \<le> limit then fulltext
        else
          let newlineIndex = lastIndexOf fulltext (JStr [newline]) limit;
              newlineIndex = (if newlineIndex = - 1 then int limit else newlineIndex)
          in slice fulltext 0 newlineIndex))"

section \<open>Exceptions and array methods\<close>

text \<open>A statement that throws ends the function: the rest runs only on \<open>Inr\<close>.\<close>

fun bind_err :: "error + 'a \<Rightarrow> ('a \<Rightarrow> error + 'b) \<Rightarrow> error + 'b" where
  "bind_err (Inl e) f = Inl e"
| "bind_err (Inr x) f = f x"

text \<open>
  \<^verbatim>\<open>Array.prototype.filter\<close> and \<^verbatim>\<open>map\<close> call back on the elements from left to
  right; the first callback that throws ends the whole call.
\<close>

fun filter_js :: "('a \<Rightarrow> error + bool) \<Rightarrow> 'a list \<Rightarrow> error + 'a list" where
  "filter_js f [] = Inr []"
| "filter_js f (x # xs) =
     bind_err (f x) (\<lambda>keep.
     bind_err (filter_js f xs) (\<lambda>ys. Inr (if keep then x # ys else ys)))"

fun map_js :: "('a \<Rightarrow> error + 'b) \<Rightarrow> 'a list \<Rightarrow> error + 'b list" where
  "map_js f [] = Inr []"
| "map_js f (x # xs) =
     bind_err (f x) (\<lambda>y.
     bind_err (map_js f xs) (\<lambda>ys. Inr (y # ys)))"

text \<open>\<^verbatim>\<open>includes\<close> and \<^verbatim>\<open>some\<close> (with a callback that cannot throw).\<close>

fun array_includes :: "'a list \<Rightarrow> 'a \<Rightarrow> bool" where
  "array_includes [] x = False"
| "array_includes (y # ys) x = (y = x \<or> array_includes ys x)"

fun array_some :: "('a \<Rightarrow> bool) \<Rightarrow> 'a list \<Rightarrow> bool" where
  "array_some f [] = False"
| "array_some f (x # xs) = (f x \<or> array_some f xs)"

section \<open>Content entries\<close>

text \<open>
  An Eleventy collection item, with the fields the transform reads:
  \<^verbatim>\<open>item.data.{title, tags, authors, description, canonicalUrl, page.url}\<close> and
  \<^verbatim>\<open>item.template.frontMatter.content\<close>.
\<close>

record page =
  url :: jsval

record data =
  title :: jsval
  tags :: jsval
  authors :: jsval
  description :: jsval
  canonicalUrl :: jsval
  page :: "page option"

record frontMatter =
  content :: jsval

record template =
  frontMatter :: "frontMatter option"

record item =
  data :: "data option"
  template :: "template option"

text \<open>
  An entry of the authors or of the tags collection, as the mappers read it:
  \<^verbatim>\<open>href\<close>, \<^verbatim>\<open>title\<close>, \<^verbatim>\<open>description\<close> and \<^verbatim>\<open>data.canonicalUrl\<close>.
\<close>

record entry_data =
  canonicalUrl :: jsval

record entry =
  href :: jsval
  title :: jsval
  description :: jsval
  data :: "entry_data option"

text \<open>
  The record handed to the search index. Only a post has \<^verbatim>\<open>authors\<close> and
  \<^verbatim>\<open>_tags\<close> (here \<open>tags'\<close>); \<open>None\<close> says the record has no such property.
\<close>

record search_record =
  objectID :: string
  lang :: string
  title :: jsval
  url :: jsval
  description :: jsval
  fulltext :: jsval
  authors :: "jsval list option"
  tags' :: "jsval option"

text \<open>
  The collaborators that are required from other modules. The collection is
  opaque (\<open>'c\<close>); the transform only passes it on. The authors and the tags
  collection are objects, here association lists from key to entry in the
  order of \<^verbatim>\<open>Object.values\<close>, each key occurring once; \<open>map_of\<close> finds the
  object's own properties. The collaborators are taken as functions that
  return.
\<close>

record 'c externals =
  getFilteredByGlob :: "'c \<Rightarrow> string \<Rightarrow> item list"
  livePosts :: "item \<Rightarrow> bool"
  removeMarkdown :: "jsval \<Rightarrow> string"
  authorsCollectionFn :: "'c \<Rightarrow> (string \<times> entry) list"
  authorsFeed :: "entry list \<Rightarrow> entry list"
  newslettersCollectionFn :: "'c \<Rightarrow> item list"
  tagsCollectionFn :: "'c \<Rightarrow> (string \<times> entry) list"
  tagsFeed :: "entry list \<Rightarrow> entry list"

definition Object_values :: "(string \<times> 'a) list \<Rightarrow> 'a list" where
  "Object_values obj = map snd obj"

section \<open>The content selector\<close>

definition validTags :: "jsval list" where
  "validTags = [JStr ''post'']"

text \<open>The callback of the first \<^verbatim>\<open>filter\<close>.\<close>

definition hasValidTag :: "item \<Rightarrow> error + bool" where
  "hasValidTag it =
     (case item.data it of
        None \<Rightarrow> Inl (TypeError ''tags'')
      | Some d \<Rightarrow>
          if \<not> isArray (data.tags d) then Inr False
          else Inr (case data.tags d of
                      JArr ts \<Rightarrow> array_some (\<lambda>tag. array_includes validTags tag) ts
                    | _ \<Rightarrow> False))"

text \<open>
  The callback of the second \<^verbatim>\<open>filter\<close>, \<^verbatim>\<open>item.data.title && item.data.page.url\<close>:
  the right operand is evaluated only when the title is truthy. \<^verbatim>\<open>filter\<close> keeps
  the item when the value is truthy.
\<close>

definition titleAndUrl :: "item \<Rightarrow> error + jsval" where
  "titleAndUrl it =
     (case item.data it of
        None \<Rightarrow> Inl (TypeError ''title'')
      | Some d \<Rightarrow>
          if \<not> truthy (data.title d) then Inr (data.title d)
          else (case data.page d of
                  None \<Rightarrow> Inl (TypeError ''url'')
                | Some p \<Rightarrow> Inr (page.url p)))"

definition hasTitleAndUrl :: "item \<Rightarrow> error + bool" where
  "hasTitleAndUrl it = bind_err (titleAndUrl it) (\<lambda>v. Inr (truthy v))"

definition eleventyPosts :: "'c externals \<Rightarrow> 'c \<Rightarrow> error + item list" where
  "eleventyPosts ext collection =
     bind_err (filter_js hasValidTag (getFilteredByGlob ext collection ''**/*.md'')) (\<lambda>tagged.
     bind_err (filter_js hasTitleAndUrl tagged) (\<lambda>titled.
     Inr (filter (livePosts ext) titled)))"

section \<open>The record mappers\<close>

definition lang_en :: string where
  "lang_en = ''en''"

text \<open>\<^verbatim>\<open>template.frontMatter.content\<close>.\<close>

definition frontMatterContent :: "template option \<Rightarrow> error + jsval" where
  "frontMatterContent t =
     (case t of
        None \<Rightarrow> Inl (TypeError ''frontMatter'')
      | Some t' \<Rightarrow>
          (case template.frontMatter t' of
             None \<Rightarrow> Inl (TypeError ''content'')
           | Some fm \<Rightarrow> Inr (frontMatter.content fm)))"

text \<open>
  The names that every plain object inherits from \<^verbatim>\<open>Object.prototype\<close>. A read of
  one of them on an object that has no own property of that name gives the
  inherited member: a function, or the prototype itself for \<^verbatim>\<open>__proto__\<close>. None
  of these members has a \<^verbatim>\<open>title\<close>.
\<close>

definition Object_prototype_names :: "string list" where
  "Object_prototype_names =
     [''constructor'', ''__defineGetter__'', ''__defineSetter__'', ''hasOwnProperty'',
      ''__lookupGetter__'', ''__lookupSetter__'', ''isPrototypeOf'',
      ''propertyIsEnumerable'', ''toString'', ''valueOf'', ''__proto__'',
      ''toLocaleString'']"

text \<open>
  \<^verbatim>\<open>(data.authors || []).map((author) => authorsCollection[author].title)\<close>.
  Only an array has \<^verbatim>\<open>map\<close>. The read \<^verbatim>\<open>authorsCollection[author]\<close> converts the
  key to a string and finds an own property first, then an inherited one. An
  own entry gives its title; an inherited member gives \<^verbatim>\<open>undefined\<close> as its
  title, without an exception; any other key gives \<^verbatim>\<open>undefined\<close>, and reading
  its \<^verbatim>\<open>title\<close> throws.
\<close>

definition authorTitle :: "(string \<times> entry) list \<Rightarrow> jsval \<Rightarrow> error + jsval" where
  "authorTitle authorsCollection author =
     (case map_of authorsCollection (toString author) of
        Some a \<Rightarrow> Inr (entry.title a)
      | None \<Rightarrow>
          if toString author \<in> set Object_prototype_names then Inr JUndefined
          else Inl (TypeError ''title''))"

definition postAuthors :: "(string \<times> entry) list \<Rightarrow> jsval \<Rightarrow> error + jsval list" where
  "postAuthors authorsCollection v =
     (case (if truthy v then v else JArr []) of
        JArr keys \<Rightarrow> map_js (authorTitle authorsCollection) keys
      | _ \<Rightarrow> Inl (TypeError ''map''))"

definition post_record ::
  "'c externals \<Rightarrow> (string \<times> entry) list \<Rightarrow> item \<Rightarrow> error + search_record" where
  "post_record ext authorsCollection it =
     bind_err (frontMatterContent (item.template it)) (\<lambda>c.
     let fulltext = removeMarkdown ext c;
         limited = limitText fulltext default_limit
     in
     (case item.data it of
        None \<Rightarrow> Inl (TypeError ''authors'')
      | Some d \<Rightarrow>
          bind_err (postAuthors authorsCollection (data.authors d)) (\<lambda>authors.
          (case data.page d of
             None \<Rightarrow> Inl (TypeError ''url'')
           | Some p \<Rightarrow>
               Inr \<lparr> objectID = plus_str (page.url p) ''#'' @ lang_en,
                     lang = lang_en,
                     title = data.title d,
                     url = data.canonicalUrl d,
                     description = data.description d,
                     fulltext = JStr limited,
                     authors = Some authors,
                     tags' = Some (data.tags d) \<rparr>))))"

text \<open>The mapper of an author entry.\<close>

definition author_record :: "entry \<Rightarrow> error + search_record" where
  "author_record author =
     (case entry.data author of
        None \<Rightarrow> Inl (TypeError ''canonicalUrl'')
      | Some d \<Rightarrow>
          bind_err (limitText_val (entry.description author) default_limit) (\<lambda>limited.
          Inr \<lparr> objectID = plus_str (entry.href author) ''#'' @ lang_en,
                lang = lang_en,
                title = entry.title author,
                url = entry_data.canonicalUrl d,
                description = entry.description author,
                fulltext = limited,
                authors = None,
                tags' = None \<rparr>))"

text \<open>The mapper of a tag entry, in the source a second copy of the same code.\<close>

definition tag_record :: "entry \<Rightarrow> error + search_record" where
  "tag_record tag =
     (case entry.data tag of
        None \<Rightarrow> Inl (TypeError ''canonicalUrl'')
      | Some d \<Rightarrow>
          bind_err (limitText_val (entry.description tag) default_limit) (\<lambda>limited.
          Inr \<lparr> objectID = plus_str (entry.href tag) ''#'' @ lang_en,
                lang = lang_en,
                title = entry.title tag,
                url = entry_data.canonicalUrl d,
                description = entry.description tag,
                fulltext = limited,
                authors = None,
                tags' = None \<rparr>))"

definition newsletter_record :: "'c externals \<Rightarrow> item \<Rightarrow> error + search_record" where
  "newsletter_record ext it =
     bind_err (frontMatterContent (item.template it)) (\<lambda>c.
     let fulltext = removeMarkdown ext c;
         limited = limitText fulltext default_limit
     in
     (case item.data it of
        None \<Rightarrow> Inl (TypeError ''page'')
      | Some d \<Rightarrow>
          (case data.page d of
             None \<Rightarrow> Inl (TypeError ''url'')
           | Some p \<Rightarrow>
               Inr \<lparr> objectID = plus_str (page.url p) ''#'' @ lang_en,
                     lang = lang_en,
                     title = data.title d,
                     url = data.canonicalUrl d,
                     description = data.description d,
                     fulltext = JStr limited,
                     authors = None,
                     tags' = None \<rparr>)))"

section \<open>The aggregator\<close>

definition posts :: "'c externals \<Rightarrow> 'c \<Rightarrow> error + search_record list" where
  "posts ext collection =
     bind_err (eleventyPosts ext collection) (\<lambda>selected.
     map_js (post_record ext (authorsCollectionFn ext collection)) selected)"

definition authors_records :: "'c externals \<Rightarrow> 'c \<Rightarrow> error + search_record list" where
  "authors_records ext collection =
     map_js author_record (authorsFeed ext (Object_values (authorsCollectionFn ext collection)))"

definition newsletters :: "'c externals \<Rightarrow> 'c \<Rightarrow> error + search_record list" where
  "newsletters ext collection =
     map_js (newsletter_record ext) (newslettersCollectionFn ext collection)"

definition tags_records :: "'c externals \<Rightarrow> 'c \<Rightarrow> error + search_record list" where
  "tags_records ext collection =
     map_js tag_record (tagsFeed ext (Object_values (tagsCollectionFn ext collection)))"

definition module_exports :: "'c externals \<Rightarrow> 'c \<Rightarrow> error + search_record list" where
  "module_exports ext collection =
     bind_err (posts ext collection) (\<lambda>ps.
     bind_err (authors_records ext collection) (\<lambda>as.
     bind_err (newsletters ext collection) (\<lambda>ns.
     bind_err (tags_records ext collection) (\<lambda>ts.
     Inr (ps @ as @ ns @ ts)))))"

section \<open>The specification's inclusion rule\<close>

text \<open>
  The rule as the specification words it, to compare with the three filters:
  (a) \<^verbatim>\<open>data.tags\<close> is a sequence with at least one tag from the fixed set
  \<open>{"post"}\<close>, (b) \<^verbatim>\<open>data.title\<close> and \<^verbatim>\<open>data.page.url\<close> are truthy, (c) the
  live-posts predicate accepts the item.
\<close>

definition inclusion_rule :: "'c externals \<Rightarrow> item \<Rightarrow> bool" where
  "inclusion_rule ext it =
     (case item.data it of
        None \<Rightarrow> False
      | Some d \<Rightarrow>
          (case data.tags d of JArr ts \<Rightarrow> (\<exists>tag\<in>set ts. tag \<in> {JStr ''post''}) | _ \<Rightarrow> False) \<and>
          truthy (data.title d) \<and>
          (case data.page d of None \<Rightarrow> False | Some p \<Rightarrow> truthy (page.url p)) \<and>
          livePosts ext it)"

text \<open>The page URL of an item whose \<^verbatim>\<open>data\<close> and \<^verbatim>\<open>data.page\<close> exist.\<close>

definition pageUrl :: "item \<Rightarrow> jsval option" where
  "pageUrl it =
     (case item.data it of
        None \<Rightarrow> None
      | Some d \<Rightarrow> (case data.page d of None \<Rightarrow> None | Some p \<Rightarrow> Some (page.url p)))"

section \<open>Example inputs\<close>

text \<open>
  Concrete collaborators for the worked examples. The collection is the list
  of its items; an item is live unless its description is \<^verbatim>\<open>'draft'\<close>; the
  markdown converter keeps a string as it is; there is one author, under the
  key \<^verbatim>\<open>x\<close>, no newsletter and one tag.
\<close>

definition example_author :: entry where
  "example_author =
     \<lparr> entry.href = JStr ''/authors/x/'', entry.title = JStr ''Author X'',
       entry.description = JStr ''About X'',
       entry.data = Some \<lparr> entry_data.canonicalUrl = JStr ''/authors/x/'' \<rparr> \<rparr>"

definition example_tag :: entry where
  "example_tag =
     \<lparr> entry.href = JStr ''/tags/news/'', entry.title = JUndefined,
       entry.description = JStr ''News'',
       entry.data = Some \<lparr> entry_data.canonicalUrl = JUndefined \<rparr> \<rparr>"

definition example_ext :: "(item list) externals" where
  "example_ext =
     \<lparr> getFilteredByGlob = (\<lambda>collection glob. collection),
       livePosts =
         (\<lambda>it. case item.data it of
                 None \<Rightarrow> False
               | Some d \<Rightarrow> data.description d \<noteq> JStr ''draft''),
       removeMarkdown = (\<lambda>v. case v of JStr s \<Rightarrow> s | _ \<Rightarrow> []),
       authorsCollectionFn = (\<lambda>collection. [(''x'', example_author)]),
       authorsFeed = (\<lambda>as. as),
       newslettersCollectionFn = (\<lambda>collection. []),
       tagsCollectionFn = (\<lambda>collection. [(''news'', example_tag)]),
       tagsFeed = (\<lambda>ts. ts) \<rparr>"

text \<open>An item with the given title, tags, authors, description and page.\<close>

definition example_item :: "jsval \<Rightarrow> jsval \<Rightarrow> jsval \<Rightarrow> jsval \<Rightarrow> page option \<Rightarrow> item" where
  "example_item ttl tgs auths descr pg =
     \<lparr> item.data =
         Some \<lparr> data.title = ttl, data.tags = tgs, data.authors = auths,
                data.description = descr, data.canonicalUrl = JStr ''/example/'',
                data.page = pg \<rparr>,
       item.template =
         Some \<lparr> template.frontMatter =
                  Some \<lparr> frontMatter.content = JStr ''line one\<newline>line two'' \<rparr> \<rparr> \<rparr>"

definition example_page :: "page option" where
  "example_page = Some \<lparr> page.url = JStr ''/example/'' \<rparr>"

section \<open>Properties of the text limiter\<close>

lemma lastIndexFrom_none: "(lastIndexFrom s x k = - 1) = (\<forall>j\<le>k. s ! j \<noteq> x)"
proof (induction k)
  case 0
  show ?case by simp
next
  case (Suc k)
  show ?case
  proof (cases "s ! Suc k = x")
    case True
    then show ?thesis by auto
  next
    case False
    then show ?thesis using Suc by (auto simp: le_Suc_eq)
  qed
qed

lemma lastIndexFrom_last:
  "\<exists>j\<le>k. s ! j = x \<Longrightarrow>
   \<exists>i\<le>k. lastIndexFrom s x k = int i \<and> s ! i = x \<and> (\<forall>j. i < j \<and> j \<le> k \<longrightarrow> s ! j \<noteq> x)"
proof (induction k)
  case 0
  then show ?case by auto
next
  case (Suc k)
  show ?case
  proof (cases "s ! Suc k = x")
    case True
    then show ?thesis by (intro exI[of _ "Suc k"]) auto
  next
    case False
    with Suc.prems have "\<exists>j\<le>k. s ! j = x" by (auto simp: le_Suc_eq)
    from Suc.IH[OF this] obtain i where i: "i \<le> k" "lastIndexFrom s x k = int i" "s ! i = x"
      "\<forall>j. i < j \<and> j \<le> k \<longrightarrow> s ! j \<noteq> x" by blast
    show ?thesis using False i by (intro exI[of _ i]) (auto simp: le_Suc_eq)
  qed
qed

lemma slice_prefix: "slice s 0 (int n) = take n s"
  by (simp add: slice_def Let_def min_def)

lemma lastIndexOf_long: "limit < length s \<Longrightarrow> lastIndexOf s x limit = lastIndexFrom s x limit"
  by (cases s) (auto simp: lastIndexOf_def min_def)

lemma limitText_short: "length t \<le> L \<Longrightarrow> limitText t L = t"
  by (simp add: limitText_def)

lemma limitText_hard_cut:
  assumes "L < length t" "\<forall>j\<le>L. t ! j \<noteq> newline"
  shows "limitText t L = take L t"
proof -
  have "lastIndexFrom t newline L = - 1" using assms(2) by (simp add: lastIndexFrom_none)
  then show ?thesis using assms(1) by (simp add: limitText_def lastIndexOf_long slice_prefix)
qed

lemma limitText_at_break:
  assumes "L < length t" "i \<le> L" "t ! i = newline" "\<forall>j. i < j \<and> j \<le> L \<longrightarrow> t ! j \<noteq> newline"
  shows "limitText t L = take i t"
proof -
  from assms(2,3) have "\<exists>j\<le>L. t ! j = newline" by blast
  from lastIndexFrom_last[OF this] obtain i' where i': "i' \<le> L" "lastIndexFrom t newline L = int i'"
    "t ! i' = newline" "\<forall>j. i' < j \<and> j \<le> L \<longrightarrow> t ! j \<noteq> newline" by blast
  have "i' = i"
  proof (rule ccontr)
    assume "i' \<noteq> i"
    then consider "i' < i" | "i < i'" by linarith
    then show False using assms(2,3,4) i' by cases auto
  qed
  then show ?thesis using assms(1) i'(2) by (simp add: limitText_def lastIndexOf_long slice_prefix)
qed

lemma limitText_cases:
  "limitText t L = t \<and> length t \<le> L \<or> (\<exists>n\<le>L. n < length t \<and> limitText t L = take n t)"
proof (cases "length t \<le> L")
  case True
  then show ?thesis by (simp add: limitText_short)
next
  case False
  then have long: "L < length t" by simp
  show ?thesis
  proof (cases "\<forall>j\<le>L. t ! j \<noteq> newline")
    case True
    then show ?thesis using long limitText_hard_cut[OF long True] by auto
  next
    case no: False
    then have "\<exists>j\<le>L. t ! j = newline" by blast
    from lastIndexFrom_last[OF this] obtain i where i: "i \<le> L" "t ! i = newline"
      "\<forall>j. i < j \<and> j \<le> L \<longrightarrow> t ! j \<noteq> newline" by blast
    then show ?thesis using long limitText_at_break[OF long i] by auto
  qed
qed

lemma limitText_length_le: "length (limitText t L) \<le> L"
  using limitText_cases[of t L] by auto

lemma limitText_prefix: "prefix (limitText t L) t"
  using limitText_cases[of t L] by (auto simp: take_is_prefix)

text \<open>
  Claim C1. For every string and every bound (7500 by default), \<open>limitText\<close>
  returns the string unchanged when its length is at most the bound. Otherwise
  it returns the prefix that ends just before the last line break at or before
  position \<open>L\<close>, the break excluded, and exactly the first \<open>L\<close> characters when
  there is no line break among the positions \<open>0..L\<close>. In all cases the result is
  a prefix of the input and is no longer than the input.
\<close>

theorem C1_limitText_contract:
  "default_limit = 7500 \<and>
   (length t \<le> L \<longrightarrow> limitText t L = t) \<and>
   (L < length t \<longrightarrow>
      (\<forall>i. i \<le> L \<and> t ! i = newline \<and> (\<forall>j. i < j \<and> j \<le> L \<longrightarrow> t ! j \<noteq> newline) \<longrightarrow>
           limitText t L = take i t) \<and>
      ((\<forall>j\<le>L. t ! j \<noteq> newline) \<longrightarrow> limitText t L = take L t)) \<and>
   prefix (limitText t L) t \<and>
   length (limitText t L) \<le> length t"
proof (intro conjI impI allI)
  show "default_limit = 7500" by (simp add: default_limit_def)
  show "limitText t L = t" if "length t \<le> L" using that by (rule limitText_short)
  show "limitText t L = take i t"
    if "L < length t"
      and "i \<le> L \<and> t ! i = newline \<and> (\<forall>j. i < j \<and> j \<le> L \<longrightarrow> t ! j \<noteq> newline)" for i
    using that by (intro limitText_at_break) blast+
  show "limitText t L = take L t" if "L < length t" and "\<forall>j\<le>L. t ! j \<noteq> newline"
    using that by (rule limitText_hard_cut)
  show "prefix (limitText t L) t" by (rule limitText_prefix)
  then show "length (limitText t L) \<le> length t" by (rule prefix_length_le)
qed

theorem C1_limitText_contract_witness:
  "limitText ''ab\<newline>d\<newline>f'' 3 = ''ab'' \<and> limitText ''abcdef'' 3 = ''abc'' \<and>
   limitText ''abc'' 3 = ''abc''"
proof -
  have long: "3 < length ''ab\<newline>d\<newline>f''" by simp
  have "''ab\<newline>d\<newline>f'' ! j \<noteq> newline" if "2 < j \<and> j \<le> 3" for j
  proof -
    from that have "j = 3" by arith
    then show ?thesis by (simp add: newline_def)
  qed
  then have br: "2 \<le> (3::nat) \<and> ''ab\<newline>d\<newline>f'' ! 2 = newline \<and>
      (\<forall>j. 2 < j \<and> j \<le> 3 \<longrightarrow> ''ab\<newline>d\<newline>f'' ! j \<noteq> newline)"
    by (simp add: newline_def)
  from C1_limitText_contract[where t = "''ab\<newline>d\<newline>f''" and L = 3] long br
  have "limitText ''ab\<newline>d\<newline>f'' 3 = take 2 ''ab\<newline>d\<newline>f''" by blast
  then have a: "limitText ''ab\<newline>d\<newline>f'' 3 = ''ab''" by simp
  have long': "3 < length ''abcdef''" by simp
  have "''abcdef'' ! j \<noteq> newline" if "j \<le> 3" for j
  proof -
    from that have "j = 0 \<or> j = 1 \<or> j = 2 \<or> j = 3" by arith
    then show ?thesis by (auto simp: newline_def)
  qed
  then have none: "\<forall>j\<le>3. ''abcdef'' ! j \<noteq> newline" by blast
  from C1_limitText_contract[where t = "''abcdef''" and L = 3] long' none
  have "limitText ''abcdef'' 3 = take 3 ''abcdef''" by blast
  then have b: "limitText ''abcdef'' 3 = ''abc''" by simp
  have "length ''abc'' \<le> 3" by simp
  with C1_limitText_contract[where t = "''abc''" and L = 3]
  have c: "limitText ''abc'' 3 = ''abc''" by blast
  show ?thesis using a b c by simp
qed

text \<open>
  Claim C2, as stated, asks that a cut at a line break leaves no trailing
  newline. It does not hold when two line breaks are adjacent: the cut before
  the second one leaves the first one at the end of the result.
\<close>

theorem C2_line_boundary_counterexample:
  "2 < length ''a\<newline>\<newline>b'' \<and> ''a\<newline>\<newline>b'' ! 2 = newline \<and>
   limitText ''a\<newline>\<newline>b'' 2 = ''a\<newline>'' \<and>
   last (limitText ''a\<newline>\<newline>b'' 2) = newline"
  by (simp add: limitText_def lastIndexOf_def slice_def newline_def numeral_2_eq_2)

text \<open>
  Claim C2, amended. When the string is longer than the bound and a line break
  occurs among its first \<open>L + 1\<close> characters, the result is the prefix that ends
  exactly at the last such break (the break excluded, so never mid-line). The
  last character of the result is a newline exactly when the character just
  before that break is itself a newline.
\<close>

theorem C2_limitText_line_boundary:
  assumes "L < length t" and "\<exists>i\<le>L. t ! i = newline"
  shows "\<exists>i\<le>L. t ! i = newline \<and> (\<forall>j. i < j \<and> j \<le> L \<longrightarrow> t ! j \<noteq> newline) \<and>
           limitText t L = take i t \<and>
           ((limitText t L \<noteq> [] \<and> last (limitText t L) = newline) =
            (0 < i \<and> t ! (i - 1) = newline))"
proof -
  from lastIndexFrom_last[OF assms(2)] obtain i where i: "i \<le> L" "t ! i = newline"
    "\<forall>j. i < j \<and> j \<le> L \<longrightarrow> t ! j \<noteq> newline" by blast
  have eq: "limitText t L = take i t" by (rule limitText_at_break[OF assms(1) i])
  have len: "i < length t" using i(1) assms(1) by simp
  have "(take i t \<noteq> [] \<and> last (take i t) = newline) = (0 < i \<and> t ! (i - 1) = newline)"
  proof (cases i)
    case 0
    then show ?thesis by simp
  next
    case (Suc k)
    then have "take i t = take k t @ [t ! k]" using len by (simp add: take_Suc_conv_app_nth)
    then show ?thesis using Suc by simp
  qed
  then show ?thesis using i eq by auto
qed

theorem C2_limitText_line_boundary_witness:
  "\<exists>i\<le>3. limitText ''ab\<newline>d\<newline>f'' 3 = take i ''ab\<newline>d\<newline>f'' \<and>
     \<not> (0 < i \<and> ''ab\<newline>d\<newline>f'' ! (i - 1) = newline) \<and>
     \<not> (limitText ''ab\<newline>d\<newline>f'' 3 \<noteq> [] \<and> last (limitText ''ab\<newline>d\<newline>f'' 3) = newline)"
proof -
  have long: "3 < length ''ab\<newline>d\<newline>f''" by simp
  have "''ab\<newline>d\<newline>f'' ! 2 = newline" by (simp add: newline_def)
  then have br: "\<exists>i\<le>3. ''ab\<newline>d\<newline>f'' ! i = newline" by (intro exI[of _ 2]) simp
  from C2_limitText_line_boundary[OF long br] obtain i where i: "i \<le> 3"
    "''ab\<newline>d\<newline>f'' ! i = newline"
    "limitText ''ab\<newline>d\<newline>f'' 3 = take i ''ab\<newline>d\<newline>f''"
    "(limitText ''ab\<newline>d\<newline>f'' 3 \<noteq> [] \<and> last (limitText ''ab\<newline>d\<newline>f'' 3) = newline) =
       (0 < i \<and> ''ab\<newline>d\<newline>f'' ! (i - 1) = newline)" by blast
  from i(1) have "i = 0 \<or> i = 1 \<or> i = 2 \<or> i = 3" by auto
  with i(2) have "i = 2" by (auto simp: newline_def)
  then have "\<not> (0 < i \<and> ''ab\<newline>d\<newline>f'' ! (i - 1) = newline)" by (simp add: newline_def)
  with i show ?thesis by blast
qed

text \<open>
  Claim C6. \<open>limitText\<close> is idempotent for a fixed bound: limiting a limited
  text again changes nothing.
\<close>

theorem C6_limitText_idempotent: "limitText (limitText t L) L = limitText t L"
  by (simp add: limitText_short limitText_length_le)

text \<open>
  Claim C7. A string without any line break that is longer than the bound is
  cut to exactly \<open>L\<close> characters.
\<close>

theorem C7_limitText_hard_cut_length:
  assumes "newline \<notin> set t" and "L < length t"
  shows "length (limitText t L) = L"
proof -
  have "\<forall>j\<le>L. t ! j \<noteq> newline"
  proof (intro allI impI)
    fix j assume "j \<le> L"
    then have "j < length t" using assms(2) by simp
    then have "t ! j \<in> set t" by simp
    then show "t ! j \<noteq> newline" using assms(1) by auto
  qed
  from limitText_hard_cut[OF assms(2) this] show ?thesis using assms(2) by simp
qed

theorem C7_limitText_hard_cut_length_witness:
  "newline \<notin> set ''abcdef'' \<and> 3 < length ''abcdef'' \<and> length (limitText ''abcdef'' 3) = 3"
proof -
  have a: "newline \<notin> set ''abcdef''" by (simp add: newline_def)
  have b: "3 < length ''abcdef''" by simp
  show ?thesis using a b C7_limitText_hard_cut_length[OF a b] by simp
qed

section \<open>Properties of the array methods\<close>

lemma bind_err_Inr_iff: "(bind_err m f = Inr y) = (\<exists>x. m = Inr x \<and> f x = Inr y)"
  by (cases m) auto

lemma bind_err_Inl_iff: "(bind_err m f = Inl e) = (m = Inl e \<or> (\<exists>x. m = Inr x \<and> f x = Inl e))"
  by (cases m) auto

lemma filter_js_Inr:
  "filter_js f xs = Inr ys \<Longrightarrow> ys = filter (\<lambda>x. f x = Inr True) xs \<and> (\<forall>x\<in>set xs. \<exists>b. f x = Inr b)"
proof (induction xs arbitrary: ys)
  case Nil
  then show ?case by simp
next
  case (Cons x xs)
  from Cons.prems obtain keep zs where k: "f x = Inr keep" and z: "filter_js f xs = Inr zs"
    and y: "ys = (if keep then x # zs else zs)"
    by (auto simp: bind_err_Inr_iff)
  from Cons.IH[OF z] have "zs = filter (\<lambda>x. f x = Inr True) xs" "\<forall>x\<in>set xs. \<exists>b. f x = Inr b"
    by auto
  then show ?case using k y by auto
qed

lemma filter_js_total:
  "\<forall>x\<in>set xs. \<exists>b. f x = Inr b \<Longrightarrow> filter_js f xs = Inr (filter (\<lambda>x. f x = Inr True) xs)"
  by (induction xs) auto

lemma filter_js_throws:
  "x \<in> set xs \<Longrightarrow> f x = Inl e \<Longrightarrow> \<exists>e'. filter_js f xs = Inl e'"
proof (cases "filter_js f xs")
  case (Inl a)
  then show ?thesis by blast
next
  case (Inr ys)
  assume "x \<in> set xs" "f x = Inl e"
  with filter_js_Inr[OF Inr] show ?thesis by auto
qed

lemma map_js_Inr: "(map_js f xs = Inr ys) = list_all2 (\<lambda>x y. f x = Inr y) xs ys"
proof (induction xs arbitrary: ys)
  case Nil
  show ?case by auto
next
  case (Cons x xs)
  show ?case by (cases ys) (auto simp: bind_err_Inr_iff Cons.IH)
qed

lemma map_js_throws:
  "x \<in> set xs \<Longrightarrow> f x = Inl e \<Longrightarrow> \<exists>e'. map_js f xs = Inl e'"
proof (cases "map_js f xs")
  case (Inl a)
  then show ?thesis by blast
next
  case (Inr ys)
  assume x: "x \<in> set xs" "f x = Inl e"
  from Inr have "list_all2 (\<lambda>x y. f x = Inr y) xs ys" by (simp add: map_js_Inr)
  with x show ?thesis by (auto simp: list_all2_conv_all_nth in_set_conv_nth)
qed

lemma map_js_same_error:
  "x \<in> set xs \<Longrightarrow> f x = Inl e \<Longrightarrow> \<forall>y\<in>set xs. \<forall>e'. f y = Inl e' \<longrightarrow> e' = e \<Longrightarrow> map_js f xs = Inl e"
proof (induction xs)
  case Nil
  then show ?case by simp
next
  case (Cons a xs)
  show ?case
  proof (cases "f a")
    case (Inl e')
    then show ?thesis using Cons.prems by auto
  next
    case (Inr b)
    with Cons.prems have "x \<in> set xs" by auto
    from Cons.IH[OF this Cons.prems(2)] Cons.prems(3) have "map_js f xs = Inl e" by auto
    then show ?thesis using Inr by simp
  qed
qed

lemma array_includes_iff: "array_includes ys x = (x \<in> set ys)"
  by (induction ys) auto

lemma array_some_iff: "array_some f xs = (\<exists>x\<in>set xs. f x)"
  by (induction xs) auto

lemma filter_js_same_error:
  "x \<in> set xs \<Longrightarrow> f x = Inl e \<Longrightarrow> \<forall>y\<in>set xs. \<forall>e'. f y = Inl e' \<longrightarrow> e' = e \<Longrightarrow>
   filter_js f xs = Inl e"
proof (induction xs)
  case Nil
  then show ?case by simp
next
  case (Cons a xs)
  show ?case
  proof (cases "f a")
    case (Inl e')
    then show ?thesis using Cons.prems by auto
  next
    case (Inr b)
    with Cons.prems have "x \<in> set xs" by auto
    from Cons.IH[OF this Cons.prems(2)] Cons.prems(3) have "filter_js f xs = Inl e" by auto
    then show ?thesis using Inr by simp
  qed
qed

section \<open>Properties of the selector and of the mappers\<close>

lemma hasValidTag_eq:
  "hasValidTag it =
     (case item.data it of
        None \<Rightarrow> Inl (TypeError ''tags'')
      | Some d \<Rightarrow> Inr (case data.tags d of JArr ts \<Rightarrow> JStr ''post'' \<in> set ts | _ \<Rightarrow> False))"
  by (auto simp: hasValidTag_def validTags_def array_some_iff array_includes_iff
      split: option.splits jsval.splits)

lemma hasValidTag_True:
  "(hasValidTag it = Inr True) =
   (\<exists>d ts. item.data it = Some d \<and> data.tags d = JArr ts \<and> JStr ''post'' \<in> set ts)"
  by (auto simp: hasValidTag_eq split: option.splits jsval.splits)

lemma hasTitleAndUrl_True:
  "(hasTitleAndUrl it = Inr True) =
   (\<exists>d p. item.data it = Some d \<and> truthy (data.title d) \<and> data.page d = Some p \<and>
          truthy (page.url p))"
  by (auto simp: hasTitleAndUrl_def titleAndUrl_def bind_err_Inr_iff split: option.splits)

lemma inclusion_rule_filters:
  "inclusion_rule ext it =
   (hasValidTag it = Inr True \<and> hasTitleAndUrl it = Inr True \<and> livePosts ext it)"
  unfolding hasValidTag_True hasTitleAndUrl_True
  by (auto simp: inclusion_rule_def split: option.splits jsval.splits)

lemma eleventyPosts_Inr:
  assumes "eleventyPosts ext c = Inr ps"
  shows "ps = filter (inclusion_rule ext) (getFilteredByGlob ext c ''**/*.md'')"
proof -
  from assms obtain tagged titled where
    t1: "filter_js hasValidTag (getFilteredByGlob ext c ''**/*.md'') = Inr tagged" and
    t2: "filter_js hasTitleAndUrl tagged = Inr titled" and
    t3: "ps = filter (livePosts ext) titled"
    by (auto simp: eleventyPosts_def bind_err_Inr_iff)
  from filter_js_Inr[OF t1] filter_js_Inr[OF t2] t3
  have "ps = filter (livePosts ext) (filter (\<lambda>x. hasTitleAndUrl x = Inr True)
          (filter (\<lambda>x. hasValidTag x = Inr True) (getFilteredByGlob ext c ''**/*.md'')))"
    by simp
  also have "\<dots> = filter (inclusion_rule ext) (getFilteredByGlob ext c ''**/*.md'')"
    by (induction "getFilteredByGlob ext c ''**/*.md''") (auto simp: inclusion_rule_filters)
  finally show ?thesis .
qed

lemma eleventyPosts_returns:
  assumes "\<forall>it\<in>set (getFilteredByGlob ext c ''**/*.md'').
             \<exists>d. item.data it = Some d \<and> (isArray (data.tags d) \<longrightarrow> data.page d \<noteq> None)"
  shows "\<exists>ps. eleventyPosts ext c = Inr ps"
proof -
  let ?items = "getFilteredByGlob ext c ''**/*.md''"
  have "\<forall>it\<in>set ?items. \<exists>b. hasValidTag it = Inr b"
    using assms by (auto simp: hasValidTag_eq)
  from filter_js_total[OF this] obtain tagged where
    t1: "filter_js hasValidTag ?items = Inr tagged" and
    tg: "tagged = filter (\<lambda>x. hasValidTag x = Inr True) ?items" by blast
  have "\<forall>it\<in>set tagged. \<exists>b. hasTitleAndUrl it = Inr b"
  proof
    fix it assume "it \<in> set tagged"
    then have mem: "it \<in> set ?items" and v: "hasValidTag it = Inr True" using tg by auto
    from v obtain d ts where d: "item.data it = Some d" "data.tags d = JArr ts"
      by (auto simp: hasValidTag_True)
    with assms mem have "data.page d \<noteq> None" by fastforce
    then show "\<exists>b. hasTitleAndUrl it = Inr b"
      using d by (auto simp: hasTitleAndUrl_def titleAndUrl_def)
  qed
  from filter_js_total[OF this] have "\<exists>titled. filter_js hasTitleAndUrl tagged = Inr titled"
    by blast
  then show ?thesis using t1 by (auto simp: eleventyPosts_def)
qed

lemma titleAndUrl_no_page:
  assumes "item.data it = Some d" "truthy (data.title d)" "data.page d = None"
  shows "titleAndUrl it = Inl (TypeError ''url'')"
  using assms by (simp add: titleAndUrl_def)

lemma hasTitleAndUrl_errors:
  "hasTitleAndUrl it = Inl e \<Longrightarrow> item.data it \<noteq> None \<Longrightarrow> e = TypeError ''url''"
  by (auto simp: hasTitleAndUrl_def titleAndUrl_def bind_err_Inl_iff split: option.splits if_splits)

lemma eleventyPosts_throws:
  assumes mem: "it \<in> set (getFilteredByGlob ext c ''**/*.md'')"
    and d: "item.data it = Some d" "data.tags d = JArr ts" "JStr ''post'' \<in> set ts"
      "truthy (data.title d)" "data.page d = None"
  shows "\<exists>e. eleventyPosts ext c = Inl e"
    and "\<forall>x\<in>set (getFilteredByGlob ext c ''**/*.md''). item.data x \<noteq> None \<Longrightarrow>
         eleventyPosts ext c = Inl (TypeError ''url'')"
proof -
  let ?items = "getFilteredByGlob ext c ''**/*.md''"
  have bad: "hasTitleAndUrl it = Inl (TypeError ''url'')"
    using titleAndUrl_no_page[OF d(1,4,5)] by (simp add: hasTitleAndUrl_def)
  have v: "hasValidTag it = Inr True" using d by (auto simp: hasValidTag_True)
  show "\<exists>e. eleventyPosts ext c = Inl e"
  proof (cases "filter_js hasValidTag ?items")
    case (Inl e)
    then show ?thesis by (simp add: eleventyPosts_def)
  next
    case (Inr tagged)
    from filter_js_Inr[OF Inr] mem v have "it \<in> set tagged" by simp
    from filter_js_throws[where f = hasTitleAndUrl, OF this bad] Inr show ?thesis
      by (auto simp: eleventyPosts_def)
  qed
  show "eleventyPosts ext c = Inl (TypeError ''url'')"
    if all: "\<forall>x\<in>set ?items. item.data x \<noteq> None"
  proof -
    have "\<forall>x\<in>set ?items. \<exists>b. hasValidTag x = Inr b" using all by (auto simp: hasValidTag_eq)
    from filter_js_total[OF this] obtain tagged where
      t1: "filter_js hasValidTag ?items = Inr tagged" and
      tg: "tagged = filter (\<lambda>x. hasValidTag x = Inr True) ?items" by blast
    have in_t: "it \<in> set tagged" using tg mem v by simp
    have "\<forall>y\<in>set tagged. \<forall>e'. hasTitleAndUrl y = Inl e' \<longrightarrow> e' = TypeError ''url''"
      using tg all by (auto dest: hasTitleAndUrl_errors)
    from filter_js_same_error[where f = hasTitleAndUrl, OF in_t bad this] t1 show ?thesis by (simp add: eleventyPosts_def)
  qed
qed

lemma authorTitle_errors: "authorTitle ac k = Inl e \<Longrightarrow> e = TypeError ''title''"
  by (auto simp: authorTitle_def split: option.splits if_splits)

lemma postAuthors_missing_key:
  assumes "k \<in> set keys" "map_of ac (toString k) = None"
    "toString k \<notin> set Object_prototype_names"
  shows "postAuthors ac (JArr keys) = Inl (TypeError ''title'')"
proof -
  have bad: "authorTitle ac k = Inl (TypeError ''title'')"
    using assms(2,3) by (simp add: authorTitle_def)
  have "\<forall>y\<in>set keys. \<forall>e'. authorTitle ac y = Inl e' \<longrightarrow> e' = TypeError ''title''"
    by (auto dest: authorTitle_errors)
  from map_js_same_error[where f = "authorTitle ac", OF assms(1) bad this]
  show ?thesis by (simp add: postAuthors_def)
qed

lemma post_record_missing_key:
  assumes "item.data it = Some d" "data.authors d = JArr keys" "k \<in> set keys"
    "map_of ac (toString k) = None" "toString k \<notin> set Object_prototype_names"
  shows "\<exists>e. post_record ext ac it = Inl e"
    and "item.template it = Some t \<Longrightarrow> template.frontMatter t = Some fm \<Longrightarrow>
         post_record ext ac it = Inl (TypeError ''title'')"
proof -
  have pa: "postAuthors ac (data.authors d) = Inl (TypeError ''title'')"
    using postAuthors_missing_key[OF assms(3,4,5)] assms(2) by simp
  show "\<exists>e. post_record ext ac it = Inl e"
    by (cases "frontMatterContent (item.template it)")
      (simp_all add: post_record_def Let_def assms(1) pa)
  show "post_record ext ac it = Inl (TypeError ''title'')"
    if "item.template it = Some t" "template.frontMatter t = Some fm"
    using that by (simp add: post_record_def frontMatterContent_def Let_def assms(1) pa)
qed

lemma post_record_objectID:
  assumes "post_record ext ac it = Inr r"
  shows "\<exists>u. pageUrl it = Some u \<and> objectID r = toString u @ ''#'' @ ''en''"
  using assms
  by (auto simp: post_record_def pageUrl_def bind_err_Inr_iff Let_def plus_str_def lang_en_def
      split: option.splits)

lemma posts_Inl: "eleventyPosts ext c = Inl e \<Longrightarrow> posts ext c = Inl e"
  by (simp add: posts_def)

lemma module_exports_Inl: "posts ext c = Inl e \<Longrightarrow> module_exports ext c = Inl e"
  by (simp add: module_exports_def)

lemma map_js_length: "map_js f xs = Inr ys \<Longrightarrow> length ys = length xs"
  by (simp add: map_js_Inr list_all2_lengthD)

lemma author_record_eq:
  "author_record e =
     (case entry.data e of
        None \<Rightarrow> Inl (TypeError ''canonicalUrl'')
      | Some d \<Rightarrow>
          (case limitText_val (entry.description e) 7500 of
             Inl err \<Rightarrow> Inl err
           | Inr limited \<Rightarrow>
               Inr \<lparr> objectID = toString (entry.href e) @ ''#en'', lang = ''en'',
                     title = entry.title e, url = entry_data.canonicalUrl d,
                     description = entry.description e, fulltext = limited,
                     authors = None, tags' = None \<rparr>))"
  by (simp add: author_record_def default_limit_def plus_str_def lang_en_def
      split: option.splits sum.splits)

lemma tag_record_eq: "tag_record e = author_record e"
  by (simp add: tag_record_def author_record_def)

lemma newsletter_record_ok:
  assumes "item.template n = Some t" "template.frontMatter t = Some fm"
    "item.data n = Some nd" "data.page nd = Some p"
  shows "newsletter_record ext n =
     Inr \<lparr> objectID = toString (page.url p) @ ''#en'', lang = ''en'',
           title = data.title nd, url = data.canonicalUrl nd,
           description = data.description nd,
           fulltext = JStr (limitText (removeMarkdown ext (frontMatter.content fm)) 7500),
           authors = None, tags' = None \<rparr>"
  using assms
  by (simp add: newsletter_record_def frontMatterContent_def Let_def default_limit_def
      plus_str_def lang_en_def)

text \<open>The definitions that a worked example unfolds.\<close>

lemmas example_defs =
  example_ext_def example_item_def example_page_def example_author_def example_tag_def

lemmas selector_defs =
  eleventyPosts_def hasValidTag_def hasTitleAndUrl_def titleAndUrl_def validTags_def

lemmas mapper_defs =
  post_record_def author_record_def tag_record_def newsletter_record_def
  frontMatterContent_def postAuthors_def authorTitle_def plus_str_def lang_en_def
  default_limit_def limitText_short Let_def Object_values_def

section \<open>The claims about the selector\<close>

text \<open>
  Claim C4. Whenever the selector returns, its result is the input sequence
  filtered by the inclusion rule: an item is among the posts iff (a) its tags
  are a sequence that contains \<^verbatim>\<open>"post"\<close>, (b) its title and its page URL are
  truthy and (c) the live-posts predicate accepts it; the result is a
  subsequence of the input, so the relative order is kept. The selector does
  return when every item has its \<^verbatim>\<open>data\<close> and every item whose tags are an array
  has its \<^verbatim>\<open>data.page\<close>. An item whose tags are not a sequence makes the first
  filter answer \<open>False\<close> without an exception, whatever else it lacks.
\<close>

theorem C4_selector:
  "(\<forall>ps. eleventyPosts ext c = Inr ps \<longrightarrow>
      ps = filter (inclusion_rule ext) (getFilteredByGlob ext c ''**/*.md'') \<and>
      subseq ps (getFilteredByGlob ext c ''**/*.md'')) \<and>
   ((\<forall>it\<in>set (getFilteredByGlob ext c ''**/*.md'').
        \<exists>d. item.data it = Some d \<and> (isArray (data.tags d) \<longrightarrow> data.page d \<noteq> None)) \<longrightarrow>
      (\<exists>ps. eleventyPosts ext c = Inr ps)) \<and>
   (\<forall>it d. item.data it = Some d \<and> \<not> isArray (data.tags d) \<longrightarrow>
      hasValidTag it = Inr False \<and> \<not> inclusion_rule ext it)"
proof (intro conjI allI impI)
  fix ps assume r: "eleventyPosts ext c = Inr ps"
  show "ps = filter (inclusion_rule ext) (getFilteredByGlob ext c ''**/*.md'')"
    by (rule eleventyPosts_Inr[OF r])
  then show "subseq ps (getFilteredByGlob ext c ''**/*.md'')" by simp
next
  assume "\<forall>it\<in>set (getFilteredByGlob ext c ''**/*.md'').
        \<exists>d. item.data it = Some d \<and> (isArray (data.tags d) \<longrightarrow> data.page d \<noteq> None)"
  then show "\<exists>ps. eleventyPosts ext c = Inr ps" by (rule eleventyPosts_returns)
next
  fix it :: item and d assume a: "item.data it = Some d \<and> \<not> isArray (data.tags d)"
  then show "hasValidTag it = Inr False" by (simp add: hasValidTag_def)
  then show "\<not> inclusion_rule ext it" by (simp add: inclusion_rule_filters)
qed

text \<open>
  The selector scenario of the specification: one item without a title, one
  with tags that are not a list (and no page), one that is not live and one
  that is eligible. Only the last one is selected.
\<close>

theorem C4_selector_witness:
  "eleventyPosts example_ext
     [example_item JUndefined (JArr [JStr ''post'']) JUndefined (JStr ''d'') example_page,
      example_item (JStr ''T'') (JStr ''post'') JUndefined (JStr ''d'') None,
      example_item (JStr ''T'') (JArr [JStr ''post'']) JUndefined (JStr ''draft'') example_page,
      example_item (JStr ''Example'') (JArr [JStr ''news'', JStr ''post'']) JUndefined (JStr ''d'')
        example_page] =
   Inr [example_item (JStr ''Example'') (JArr [JStr ''news'', JStr ''post'']) JUndefined (JStr ''d'')
        example_page]"
proof -
  let ?c = "[example_item JUndefined (JArr [JStr ''post'']) JUndefined (JStr ''d'') example_page,
      example_item (JStr ''T'') (JStr ''post'') JUndefined (JStr ''d'') None,
      example_item (JStr ''T'') (JArr [JStr ''post'']) JUndefined (JStr ''draft'') example_page,
      example_item (JStr ''Example'') (JArr [JStr ''news'', JStr ''post'']) JUndefined (JStr ''d'')
        example_page]"
  note sel = C4_selector[where ext = example_ext and c = ?c]
  have items: "getFilteredByGlob example_ext ?c ''**/*.md'' = ?c" by (simp add: example_ext_def)
  have "\<forall>it\<in>set (getFilteredByGlob example_ext ?c ''**/*.md'').
          \<exists>d. item.data it = Some d \<and> (isArray (data.tags d) \<longrightarrow> data.page d \<noteq> None)"
    unfolding items by (simp add: example_item_def example_page_def)
  with sel obtain ps where ps: "eleventyPosts example_ext ?c = Inr ps" by blast
  with sel have "ps = filter (inclusion_rule example_ext) (getFilteredByGlob example_ext ?c ''**/*.md'')"
    by blast
  then have "ps = [example_item (JStr ''Example'') (JArr [JStr ''news'', JStr ''post'']) JUndefined
      (JStr ''d'') example_page]"
    unfolding items by (simp add: inclusion_rule_def example_defs)
  with ps show ?thesis by simp
qed

text \<open>
  Claim C10. The second filter reads \<^verbatim>\<open>item.data.page.url\<close> without a guard. An
  item of the collection whose tags are an array with \<^verbatim>\<open>"post"\<close>, whose title is
  truthy and whose \<^verbatim>\<open>data.page\<close> is absent makes that read throw; the exception
  leaves the selector and the whole transform instead of excluding the item.
  When every item has its \<^verbatim>\<open>data\<close>, the error is the one of reading \<^verbatim>\<open>url\<close>.
\<close>

theorem C10_missing_page_throws:
  assumes "it \<in> set (getFilteredByGlob ext c ''**/*.md'')"
    and "item.data it = Some d" and "data.tags d = JArr ts" and "JStr ''post'' \<in> set ts"
    and "truthy (data.title d)" and "data.page d = None"
  shows "titleAndUrl it = Inl (TypeError ''url'') \<and>
         (\<exists>e. eleventyPosts ext c = Inl e \<and> module_exports ext c = Inl e) \<and>
         ((\<forall>x\<in>set (getFilteredByGlob ext c ''**/*.md''). item.data x \<noteq> None) \<longrightarrow>
            module_exports ext c = Inl (TypeError ''url''))"
proof (intro conjI impI)
  show "titleAndUrl it = Inl (TypeError ''url'')"
    by (rule titleAndUrl_no_page[OF assms(2,5,6)])
  from eleventyPosts_throws(1)[OF assms] obtain e where e: "eleventyPosts ext c = Inl e" ..
  then have "posts ext c = Inl e" by (rule posts_Inl)
  then have "module_exports ext c = Inl e" by (rule module_exports_Inl)
  with e show "\<exists>e. eleventyPosts ext c = Inl e \<and> module_exports ext c = Inl e" by blast
  assume "\<forall>x\<in>set (getFilteredByGlob ext c ''**/*.md''). item.data x \<noteq> None"
  from eleventyPosts_throws(2)[OF assms this]
  have "posts ext c = Inl (TypeError ''url'')" by (rule posts_Inl)
  then show "module_exports ext c = Inl (TypeError ''url'')" by (rule module_exports_Inl)
qed

text \<open>
  A collection with such an item makes the transform throw; the same item with
  tags that are not an array is excluded and the selector returns.
\<close>

theorem C10_missing_page_throws_witness:
  "module_exports example_ext
     [example_item (JStr ''Example'') (JArr [JStr ''post'']) (JArr [JStr ''x'']) (JStr ''d'')
        example_page,
      example_item (JStr ''T'') (JArr [JStr ''post'']) JUndefined (JStr ''d'') None] =
   Inl (TypeError ''url'') \<and>
   eleventyPosts example_ext
     [example_item (JStr ''Example'') (JArr [JStr ''post'']) (JArr [JStr ''x'']) (JStr ''d'')
        example_page,
      example_item (JStr ''T'') (JStr ''post'') JUndefined (JStr ''d'') None] =
   Inr [example_item (JStr ''Example'') (JArr [JStr ''post'']) (JArr [JStr ''x'']) (JStr ''d'')
        example_page]"
proof -
  let ?good = "example_item (JStr ''Example'') (JArr [JStr ''post'']) (JArr [JStr ''x''])
      (JStr ''d'') example_page"
  let ?bad = "example_item (JStr ''T'') (JArr [JStr ''post'']) JUndefined (JStr ''d'') None"
  have mem: "?bad \<in> set (getFilteredByGlob example_ext [?good, ?bad] ''**/*.md'')"
    by (simp add: example_ext_def)
  have d: "item.data ?bad =
      Some \<lparr> data.title = JStr ''T'', data.tags = JArr [JStr ''post''],
             data.authors = JUndefined, data.description = JStr ''d'',
             data.canonicalUrl = JStr ''/example/'', data.page = None \<rparr>"
    by (simp add: example_item_def)
  have all: "\<forall>x\<in>set (getFilteredByGlob example_ext [?good, ?bad] ''**/*.md''). item.data x \<noteq> None"
    by (simp add: example_ext_def example_item_def)
  have "module_exports example_ext [?good, ?bad] = Inl (TypeError ''url'')"
    using C10_missing_page_throws[OF mem d, of "[JStr ''post'']"] all by simp
  moreover have "eleventyPosts example_ext
     [?good, example_item (JStr ''T'') (JStr ''post'') JUndefined (JStr ''d'') None] = Inr [?good]"
    by (simp add: selector_defs example_defs)
  ultimately show ?thesis by simp
qed

section \<open>The claims about the mappers\<close>

text \<open>
  Claim C3, as stated, says that the author, newsletter and tag mappers never
  throw on a missing field such as the description. An author or a tag without
  a description makes \<open>limitText\<close> read the length of \<^verbatim>\<open>undefined\<close>, which
  throws.
\<close>

theorem C3_missing_description_counterexample:
  "author_record (example_author\<lparr>entry.description := JUndefined\<rparr>) = Inl (TypeError ''length'') \<and>
   tag_record (example_tag\<lparr>entry.description := JUndefined\<rparr>) = Inl (TypeError ''length'')"
  by (simp add: author_record_def tag_record_def example_author_def example_tag_def)

text \<open>
  Claim C3, amended. For an author or a tag entry that has its \<^verbatim>\<open>data\<close> object
  and a string description, the mapper returns a record that copies \<^verbatim>\<open>title\<close>
  and \<^verbatim>\<open>data.canonicalUrl\<close> as they are, so a missing one is \<^verbatim>\<open>undefined\<close> in the
  record, and a missing \<^verbatim>\<open>href\<close> gives the identifier \<^verbatim>\<open>undefined#en\<close>; no error is
  raised. A missing description on an author or a tag entry raises a
  \<^verbatim>\<open>TypeError\<close>. For a newsletter that has its template, front matter, \<^verbatim>\<open>data\<close>
  and page objects, the mapper returns a record that copies title, canonical
  URL and description as they are, missing or not.
\<close>

theorem C3_missing_fields:
  "(entry.data e = Some d \<and> entry.description e = JStr s \<longrightarrow>
      author_record e =
        Inr \<lparr> objectID = toString (entry.href e) @ ''#en'', lang = ''en'',
              title = entry.title e, url = entry_data.canonicalUrl d,
              description = JStr s, fulltext = JStr (limitText s 7500),
              authors = None, tags' = None \<rparr> \<and>
      tag_record e = author_record e) \<and>
   (entry.data e = Some d \<and> entry.description e = JUndefined \<longrightarrow>
      author_record e = Inl (TypeError ''length'') \<and>
      tag_record e = Inl (TypeError ''length'')) \<and>
   (item.template n = Some t \<and> template.frontMatter t = Some fm \<and>
    item.data n = Some nd \<and> data.page nd = Some p \<longrightarrow>
      newsletter_record ext n =
        Inr \<lparr> objectID = toString (page.url p) @ ''#en'', lang = ''en'',
              title = data.title nd, url = data.canonicalUrl nd,
              description = data.description nd,
              fulltext = JStr (limitText (removeMarkdown ext (frontMatter.content fm)) 7500),
              authors = None, tags' = None \<rparr>)"
proof (intro conjI impI)
  assume a: "entry.data e = Some d \<and> entry.description e = JStr s"
  then show "author_record e =
        Inr \<lparr> objectID = toString (entry.href e) @ ''#en'', lang = ''en'',
              title = entry.title e, url = entry_data.canonicalUrl d,
              description = JStr s, fulltext = JStr (limitText s 7500),
              authors = None, tags' = None \<rparr>"
    by (simp add: author_record_eq)
  show "tag_record e = author_record e" by (rule tag_record_eq)
next
  assume a: "entry.data e = Some d \<and> entry.description e = JUndefined"
  then show "author_record e = Inl (TypeError ''length'')" by (simp add: author_record_eq)
  then show "tag_record e = Inl (TypeError ''length'')" by (simp add: tag_record_eq)
next
  assume "item.template n = Some t \<and> template.frontMatter t = Some fm \<and>
    item.data n = Some nd \<and> data.page nd = Some p"
  then show "newsletter_record ext n =
        Inr \<lparr> objectID = toString (page.url p) @ ''#en'', lang = ''en'',
              title = data.title nd, url = data.canonicalUrl nd,
              description = data.description nd,
              fulltext = JStr (limitText (removeMarkdown ext (frontMatter.content fm)) 7500),
              authors = None, tags' = None \<rparr>"
    using newsletter_record_ok[of n t fm nd p ext] by blast
qed

theorem C3_missing_fields_witness:
  "tag_record example_tag =
     Inr \<lparr> objectID = ''/tags/news/#en'', lang = ''en'', title = JUndefined, url = JUndefined,
           description = JStr ''News'', fulltext = JStr ''News'', authors = None,
           tags' = None \<rparr> \<and>
   author_record (example_author\<lparr>entry.description := JUndefined\<rparr>) = Inl (TypeError ''length'') \<and>
   newsletter_record example_ext
       (example_item JUndefined JUndefined JUndefined JUndefined example_page) =
     Inr \<lparr> objectID = ''/example/#en'', lang = ''en'', title = JUndefined,
           url = JStr ''/example/'', description = JUndefined,
           fulltext = JStr ''line one\<newline>line two'', authors = None, tags' = None \<rparr>"
proof -
  have a: "tag_record example_tag =
     Inr \<lparr> objectID = ''/tags/news/#en'', lang = ''en'', title = JUndefined, url = JUndefined,
           description = JStr ''News'', fulltext = JStr ''News'', authors = None,
           tags' = None \<rparr>"
    using C3_missing_fields[where e = example_tag
        and d = "\<lparr> entry_data.canonicalUrl = JUndefined \<rparr>" and s = "''News''",
        THEN conjunct1]
    by (simp add: example_tag_def limitText_short)
  have b: "author_record (example_author\<lparr>entry.description := JUndefined\<rparr>) =
      Inl (TypeError ''length'')"
    using C3_missing_fields[where e = "example_author\<lparr>entry.description := JUndefined\<rparr>"
        and d = "\<lparr> entry_data.canonicalUrl = JStr ''/authors/x/'' \<rparr>",
        THEN conjunct2, THEN conjunct1]
    by (simp add: example_author_def)
  have c: "newsletter_record example_ext
       (example_item JUndefined JUndefined JUndefined JUndefined example_page) =
     Inr \<lparr> objectID = ''/example/#en'', lang = ''en'', title = JUndefined,
           url = JStr ''/example/'', description = JUndefined,
           fulltext = JStr ''line one\<newline>line two'', authors = None, tags' = None \<rparr>"
    using C3_missing_fields[where ext = example_ext
        and n = "example_item JUndefined JUndefined JUndefined JUndefined example_page"
        and t = "\<lparr> template.frontMatter =
                  Some \<lparr> frontMatter.content = JStr ''line one\<newline>line two'' \<rparr> \<rparr>"
        and fm = "\<lparr> frontMatter.content = JStr ''line one\<newline>line two'' \<rparr>"
        and nd = "\<lparr> data.title = JUndefined, data.tags = JUndefined, data.authors = JUndefined,
                data.description = JUndefined, data.canonicalUrl = JStr ''/example/'',
                data.page = example_page \<rparr>"
        and p = "\<lparr> page.url = JStr ''/example/'' \<rparr>",
        THEN conjunct2, THEN conjunct2]
    by (simp add: example_defs limitText_short)
  show ?thesis using a b c by simp
qed

text \<open>
  Claim C5, as stated, says that every author key without an entry in the
  authors collection makes the post mapper fail. The key \<^verbatim>\<open>constructor\<close> has no
  entry, but the read finds the member that the collection inherits from
  \<^verbatim>\<open>Object.prototype\<close>; its title is \<^verbatim>\<open>undefined\<close>, nothing throws and the post
  is indexed with the author \<^verbatim>\<open>undefined\<close>.
\<close>

theorem C5_inherited_key_counterexample:
  "eleventyPosts example_ext
     [example_item (JStr ''Example'') (JArr [JStr ''post'']) (JArr [JStr ''constructor''])
        (JStr ''d'') example_page] =
   Inr [example_item (JStr ''Example'') (JArr [JStr ''post'']) (JArr [JStr ''constructor''])
        (JStr ''d'') example_page] \<and>
   map_of (authorsCollectionFn example_ext
     [example_item (JStr ''Example'') (JArr [JStr ''post'']) (JArr [JStr ''constructor''])
        (JStr ''d'') example_page]) (toString (JStr ''constructor'')) = None \<and>
   module_exports example_ext
     [example_item (JStr ''Example'') (JArr [JStr ''post'']) (JArr [JStr ''constructor''])
        (JStr ''d'') example_page] =
   Inr [\<lparr> objectID = ''/example/#en'', lang = ''en'', title = JStr ''Example'',
          url = JStr ''/example/'', description = JStr ''d'',
          fulltext = JStr ''line one\<newline>line two'', authors = Some [JUndefined],
          tags' = Some (JArr [JStr ''post'']) \<rparr>,
        \<lparr> objectID = ''/authors/x/#en'', lang = ''en'', title = JStr ''Author X'',
          url = JStr ''/authors/x/'', description = JStr ''About X'',
          fulltext = JStr ''About X'', authors = None, tags' = None \<rparr>,
        \<lparr> objectID = ''/tags/news/#en'', lang = ''en'', title = JUndefined,
          url = JUndefined, description = JStr ''News'',
          fulltext = JStr ''News'', authors = None, tags' = None \<rparr>]"
proof -
  let ?c = "[example_item (JStr ''Example'') (JArr [JStr ''post'']) (JArr [JStr ''constructor''])
      (JStr ''d'') example_page]"
  have sel: "eleventyPosts example_ext ?c = Inr ?c"
    by (simp add: selector_defs example_defs)
  have none: "map_of (authorsCollectionFn example_ext ?c) (toString (JStr ''constructor'')) = None"
    by (simp add: example_ext_def)
  have p: "posts example_ext ?c =
     Inr [\<lparr> objectID = ''/example/#en'', lang = ''en'', title = JStr ''Example'',
          url = JStr ''/example/'', description = JStr ''d'',
          fulltext = JStr ''line one\<newline>line two'', authors = Some [JUndefined],
          tags' = Some (JArr [JStr ''post'']) \<rparr>]"
    unfolding posts_def sel by (simp add: mapper_defs example_defs Object_prototype_names_def)
  have a: "authors_records example_ext ?c =
     Inr [\<lparr> objectID = ''/authors/x/#en'', lang = ''en'', title = JStr ''Author X'',
          url = JStr ''/authors/x/'', description = JStr ''About X'',
          fulltext = JStr ''About X'', authors = None, tags' = None \<rparr>]"
    by (simp add: authors_records_def mapper_defs example_defs)
  have n: "newsletters example_ext ?c = Inr []"
    by (simp add: newsletters_def example_ext_def)
  have t: "tags_records example_ext ?c =
     Inr [\<lparr> objectID = ''/tags/news/#en'', lang = ''en'', title = JUndefined,
          url = JUndefined, description = JStr ''News'',
          fulltext = JStr ''News'', authors = None, tags' = None \<rparr>]"
    by (simp add: tags_records_def mapper_defs example_defs)
  have m: "module_exports example_ext ?c =
   Inr [\<lparr> objectID = ''/example/#en'', lang = ''en'', title = JStr ''Example'',
          url = JStr ''/example/'', description = JStr ''d'',
          fulltext = JStr ''line one\<newline>line two'', authors = Some [JUndefined],
          tags' = Some (JArr [JStr ''post'']) \<rparr>,
        \<lparr> objectID = ''/authors/x/#en'', lang = ''en'', title = JStr ''Author X'',
          url = JStr ''/authors/x/'', description = JStr ''About X'',
          fulltext = JStr ''About X'', authors = None, tags' = None \<rparr>,
        \<lparr> objectID = ''/tags/news/#en'', lang = ''en'', title = JUndefined,
          url = JUndefined, description = JStr ''News'',
          fulltext = JStr ''News'', authors = None, tags' = None \<rparr>]"
    unfolding module_exports_def p a n t by simp
  from sel none m show ?thesis by (intro conjI)
qed

text \<open>
  Claim C5, amended. When a selected post lists an author key that has no
  entry in the authors collection and is not the name of a member inherited
  from \<^verbatim>\<open>Object.prototype\<close>, the lookup gives \<^verbatim>\<open>undefined\<close> and reading its title
  throws. The post mapper fails, with that error when the post's template and
  front matter exist, and the failure leaves \<open>posts\<close> and the whole transform:
  nothing catches it. A key without an entry that names an inherited member
  does not throw; the author is then \<^verbatim>\<open>undefined\<close>.
\<close>

theorem C5_missing_author_propagates:
  assumes "eleventyPosts ext c = Inr ps" and "it \<in> set ps"
    and "item.data it = Some d" and "data.authors d = JArr keys"
    and "k \<in> set keys" and "map_of (authorsCollectionFn ext c) (toString k) = None"
    and "toString k \<notin> set Object_prototype_names"
  shows "authorTitle (authorsCollectionFn ext c) k = Inl (TypeError ''title'') \<and>
         (\<exists>e. post_record ext (authorsCollectionFn ext c) it = Inl e) \<and>
         ((\<exists>t fm. item.template it = Some t \<and> template.frontMatter t = Some fm) \<longrightarrow>
            post_record ext (authorsCollectionFn ext c) it = Inl (TypeError ''title'')) \<and>
         (\<exists>e. posts ext c = Inl e \<and> module_exports ext c = Inl e) \<and>
         (\<forall>k'. map_of (authorsCollectionFn ext c) (toString k') = None \<and>
               toString k' \<in> set Object_prototype_names \<longrightarrow>
               authorTitle (authorsCollectionFn ext c) k' = Inr JUndefined)"
proof (intro conjI impI allI)
  show "authorTitle (authorsCollectionFn ext c) k = Inl (TypeError ''title'')"
    using assms(6,7) by (simp add: authorTitle_def)
  show fails: "\<exists>e. post_record ext (authorsCollectionFn ext c) it = Inl e"
    by (rule post_record_missing_key(1)[OF assms(3-7)])
  show "post_record ext (authorsCollectionFn ext c) it = Inl (TypeError ''title'')"
    if "\<exists>t fm. item.template it = Some t \<and> template.frontMatter t = Some fm"
  proof -
    from that obtain t fm where "item.template it = Some t" "template.frontMatter t = Some fm"
      by blast
    then show ?thesis by (rule post_record_missing_key(2)[OF assms(3-7)])
  qed
  from fails obtain e where "post_record ext (authorsCollectionFn ext c) it = Inl e" ..
  from map_js_throws[where f = "post_record ext (authorsCollectionFn ext c)", OF assms(2) this]
  obtain e' where "map_js (post_record ext (authorsCollectionFn ext c)) ps = Inl e'" ..
  then have p: "posts ext c = Inl e'" using assms(1) by (simp add: posts_def)
  then have "module_exports ext c = Inl e'" by (rule module_exports_Inl)
  with p show "\<exists>e. posts ext c = Inl e \<and> module_exports ext c = Inl e" by blast
  show "authorTitle (authorsCollectionFn ext c) k' = Inr JUndefined"
    if "map_of (authorsCollectionFn ext c) (toString k') = None \<and>
        toString k' \<in> set Object_prototype_names" for k'
    using that by (simp add: authorTitle_def)
qed

theorem C5_missing_author_propagates_witness:
  "post_record example_ext [(''x'', example_author)]
     (example_item (JStr ''Example'') (JArr [JStr ''post'']) (JArr [JStr ''x'', JStr ''nobody''])
        (JStr ''d'') example_page) = Inl (TypeError ''title'') \<and>
   (\<exists>e. module_exports example_ext
     [example_item (JStr ''Example'') (JArr [JStr ''post'']) (JArr [JStr ''x'', JStr ''nobody''])
        (JStr ''d'') example_page] = Inl e) \<and>
   authorTitle [(''x'', example_author)] (JStr ''constructor'') = Inr JUndefined"
proof -
  let ?it = "example_item (JStr ''Example'') (JArr [JStr ''post''])
      (JArr [JStr ''x'', JStr ''nobody'']) (JStr ''d'') example_page"
  have sel: "eleventyPosts example_ext [?it] = Inr [?it]"
    by (simp add: selector_defs example_defs)
  have mem: "?it \<in> set [?it]" by simp
  have d: "item.data ?it =
      Some \<lparr> data.title = JStr ''Example'', data.tags = JArr [JStr ''post''],
             data.authors = JArr [JStr ''x'', JStr ''nobody''], data.description = JStr ''d'',
             data.canonicalUrl = JStr ''/example/'', data.page = example_page \<rparr>"
    by (simp add: example_item_def)
  have keys: "data.authors \<lparr> data.title = JStr ''Example'', data.tags = JArr [JStr ''post''],
             data.authors = JArr [JStr ''x'', JStr ''nobody''], data.description = JStr ''d'',
             data.canonicalUrl = JStr ''/example/'', data.page = example_page \<rparr> =
      JArr [JStr ''x'', JStr ''nobody'']" by simp
  have k: "JStr ''nobody'' \<in> set [JStr ''x'', JStr ''nobody'']" by simp
  have ac: "authorsCollectionFn example_ext [?it] = [(''x'', example_author)]"
    by (simp add: example_ext_def)
  have none: "map_of (authorsCollectionFn example_ext [?it]) (toString (JStr ''nobody'')) = None"
    by (simp add: example_ext_def)
  have own: "toString (JStr ''nobody'') \<notin> set Object_prototype_names"
    by (simp add: Object_prototype_names_def)
  have tpl: "\<exists>t fm. item.template ?it = Some t \<and> template.frontMatter t = Some fm"
    by (simp add: example_item_def)
  have inh: "map_of (authorsCollectionFn example_ext [?it]) (toString (JStr ''constructor'')) = None \<and>
      toString (JStr ''constructor'') \<in> set Object_prototype_names"
    by (simp add: example_ext_def Object_prototype_names_def)
  note c5 = C5_missing_author_propagates[OF sel mem d keys k none own]
  from c5 tpl have a: "post_record example_ext (authorsCollectionFn example_ext [?it]) ?it =
      Inl (TypeError ''title'')" by blast
  from c5 have b: "\<exists>e. module_exports example_ext [?it] = Inl e" by blast
  from c5 inh have "authorTitle (authorsCollectionFn example_ext [?it]) (JStr ''constructor'') =
      Inr JUndefined" by blast
  with a b show ?thesis unfolding ac by (intro conjI)
qed

text \<open>
  Claim C8. The record of every selected post has the identifier
  \<^verbatim>\<open>data.page.url + '#' + 'en'\<close>; for a URL that is a string \<open>u\<close> this is
  \<open>u @ ''#en''\<close>. Posts whose page URLs are pairwise distinct (as the strings
  that the concatenation makes of them) get pairwise distinct identifiers.
\<close>

theorem C8_objectID:
  assumes "eleventyPosts ext c = Inr ps" and "posts ext c = Inr rs"
  shows "list_all2 (\<lambda>it r. \<exists>u. pageUrl it = Some u \<and> objectID r = toString u @ ''#'' @ ''en'') ps rs \<and>
         (\<forall>it r u. (it, r) \<in> set (zip ps rs) \<and> pageUrl it = Some (JStr u) \<longrightarrow>
            objectID r = u @ ''#en'') \<and>
         (distinct (map (\<lambda>it. map_option toString (pageUrl it)) ps) \<longrightarrow>
            distinct (map objectID rs))"
proof -
  from assms have m: "map_js (post_record ext (authorsCollectionFn ext c)) ps = Inr rs"
    by (simp add: posts_def)
  then have l2: "list_all2 (\<lambda>it r. post_record ext (authorsCollectionFn ext c) it = Inr r) ps rs"
    by (simp add: map_js_Inr)
  then have A: "list_all2 (\<lambda>it r. \<exists>u. pageUrl it = Some u \<and> objectID r = toString u @ ''#'' @ ''en'') ps rs"
    by (rule list_all2_mono) (rule post_record_objectID)
  have B: "objectID r = u @ ''#en''"
    if "(it, r) \<in> set (zip ps rs) \<and> pageUrl it = Some (JStr u)" for it r u
  proof -
    from that A have "\<exists>v. pageUrl it = Some v \<and> objectID r = toString v @ ''#'' @ ''en''"
      by (auto simp: list_all2_iff)
    with that show ?thesis by auto
  qed
  have C: "distinct (map objectID rs)"
    if dis: "distinct (map (\<lambda>it. map_option toString (pageUrl it)) ps)"
  proof -
    have len: "length ps = length rs" using A by (rule list_all2_lengthD)
    show ?thesis
    proof (rule ccontr)
      assume "\<not> distinct (map objectID rs)"
      then obtain i j where ij: "i < j" "j < length rs" "objectID (rs ! i) = objectID (rs ! j)"
        by (auto simp: distinct_conv_nth nat_neq_iff)
      have nth: "\<forall>n<length ps. \<exists>w. pageUrl (ps ! n) = Some w \<and>
          objectID (rs ! n) = toString w @ ''#'' @ ''en''"
        using A by (simp add: list_all2_conv_all_nth)
      have lt: "i < length ps" "j < length ps" using ij len by simp_all
      from nth lt(1) obtain u where u: "pageUrl (ps ! i) = Some u"
        "objectID (rs ! i) = toString u @ ''#'' @ ''en''" by blast
      from nth lt(2) obtain v where v: "pageUrl (ps ! j) = Some v"
        "objectID (rs ! j) = toString v @ ''#'' @ ''en''" by blast
      from u(2) v(2) ij(3) have "toString u = toString v" by simp
      then have same: "map_option toString (pageUrl (ps ! i)) = map_option toString (pageUrl (ps ! j))"
        using u(1) v(1) by simp
      from ij have "i \<noteq> j" by simp
      with dis lt have "map_option toString (pageUrl (ps ! i)) \<noteq> map_option toString (pageUrl (ps ! j))"
        by (simp add: distinct_conv_nth)
      with same show False by contradiction
    qed
  qed
  show ?thesis using A B C by blast
qed

theorem C8_objectID_witness:
  "\<exists>rs. posts example_ext
          [example_item (JStr ''A'') (JArr [JStr ''post'']) JUndefined (JStr ''d'')
             (Some \<lparr> page.url = JStr ''/a/'' \<rparr>),
           example_item (JStr ''B'') (JArr [JStr ''post'']) JUndefined (JStr ''d'')
             (Some \<lparr> page.url = JStr ''/b/'' \<rparr>)] = Inr rs \<and>
        map objectID rs = [''/a/#en'', ''/b/#en''] \<and> distinct (map objectID rs)"
proof -
  let ?a = "example_item (JStr ''A'') (JArr [JStr ''post'']) JUndefined (JStr ''d'')
             (Some \<lparr> page.url = JStr ''/a/'' \<rparr>)"
  let ?b = "example_item (JStr ''B'') (JArr [JStr ''post'']) JUndefined (JStr ''d'')
             (Some \<lparr> page.url = JStr ''/b/'' \<rparr>)"
  have sel: "eleventyPosts example_ext [?a, ?b] = Inr [?a, ?b]"
    by (simp add: selector_defs example_defs)
  have "\<exists>rs. posts example_ext [?a, ?b] = Inr rs"
    unfolding posts_def sel by (simp add: mapper_defs example_defs)
  then obtain rs where rs: "posts example_ext [?a, ?b] = Inr rs" ..
  note ids = C8_objectID[OF sel rs]
  have urls: "pageUrl ?a = Some (JStr ''/a/'')" "pageUrl ?b = Some (JStr ''/b/'')"
    by (simp_all add: pageUrl_def example_item_def)
  from ids have "list_all2 (\<lambda>it r. \<exists>u. pageUrl it = Some u \<and> objectID r = toString u @ ''#'' @ ''en'')
      [?a, ?b] rs" by (rule conjunct1)
  then obtain r1 r2 where r: "rs = [r1, r2]"
    and r1: "\<exists>u. pageUrl ?a = Some u \<and> objectID r1 = toString u @ ''#'' @ ''en''"
    and r2: "\<exists>u. pageUrl ?b = Some u \<and> objectID r2 = toString u @ ''#'' @ ''en''"
    unfolding list_all2_Cons1 by blast
  from r1 urls(1) have o1: "objectID r1 = ''/a/#en''" by simp
  from r2 urls(2) have o2: "objectID r2 = ''/b/#en''" by simp
  have m: "map objectID rs = [''/a/#en'', ''/b/#en'']" using r o1 o2 by simp
  have dis: "distinct (map (\<lambda>it. map_option toString (pageUrl it)) [?a, ?b])"
    by (simp add: urls)
  from ids have "distinct (map (\<lambda>it. map_option toString (pageUrl it)) [?a, ?b]) \<longrightarrow>
      distinct (map objectID rs)" by (rule conjunct2[THEN conjunct2])
  with dis have "distinct (map objectID rs)" by (rule rev_mp)
  with rs m show ?thesis by (intro exI[of _ rs] conjI)
qed

section \<open>The claim about the aggregator\<close>

text \<open>
  Claim C9. The transform returns a list exactly when the four mappings
  return, and the list is then the concatenation of the mapped posts, authors,
  newsletters and tags, in this order. Nothing is removed, reordered or capped:
  the length is the number of selected posts plus the numbers of entries that
  the author feed, the newsletter collection and the tag feed deliver.
\<close>

theorem C9_concatenation:
  "(module_exports ext c = Inr out) =
     (\<exists>ps as ns ts. posts ext c = Inr ps \<and> authors_records ext c = Inr as \<and>
        newsletters ext c = Inr ns \<and> tags_records ext c = Inr ts \<and>
        out = ps @ as @ ns @ ts) \<and>
   (module_exports ext c = Inr out \<longrightarrow>
     (\<exists>selected. eleventyPosts ext c = Inr selected \<and>
        length out =
          length selected +
          length (authorsFeed ext (Object_values (authorsCollectionFn ext c))) +
          length (newslettersCollectionFn ext c) +
          length (tagsFeed ext (Object_values (tagsCollectionFn ext c)))))"
proof (intro conjI impI)
  show eq: "(module_exports ext c = Inr out) =
     (\<exists>ps as ns ts. posts ext c = Inr ps \<and> authors_records ext c = Inr as \<and>
        newsletters ext c = Inr ns \<and> tags_records ext c = Inr ts \<and>
        out = ps @ as @ ns @ ts)"
    unfolding module_exports_def bind_err_Inr_iff by blast
  assume "module_exports ext c = Inr out"
  with eq obtain ps as ns ts where p: "posts ext c = Inr ps"
    and a: "authors_records ext c = Inr as" and n: "newsletters ext c = Inr ns"
    and t: "tags_records ext c = Inr ts" and out: "out = ps @ as @ ns @ ts" by blast
  from p obtain selected where s: "eleventyPosts ext c = Inr selected"
    and m: "map_js (post_record ext (authorsCollectionFn ext c)) selected = Inr ps"
    by (auto simp: posts_def bind_err_Inr_iff)
  have "length ps = length selected" using m by (rule map_js_length)
  moreover have "length as = length (authorsFeed ext (Object_values (authorsCollectionFn ext c)))"
    using a unfolding authors_records_def by (rule map_js_length)
  moreover have "length ns = length (newslettersCollectionFn ext c)"
    using n unfolding newsletters_def by (rule map_js_length)
  moreover have "length ts = length (tagsFeed ext (Object_values (tagsCollectionFn ext c)))"
    using t unfolding tags_records_def by (rule map_js_length)
  ultimately show "\<exists>selected. eleventyPosts ext c = Inr selected \<and>
        length out =
          length selected +
          length (authorsFeed ext (Object_values (authorsCollectionFn ext c))) +
          length (newslettersCollectionFn ext c) +
          length (tagsFeed ext (Object_values (tagsCollectionFn ext c)))"
    using s out by simp
qed

text \<open>
  The end-to-end scenario: one post by author \<^verbatim>\<open>x\<close>, the author and one tag.
\<close>

theorem C9_concatenation_witness:
  "module_exports example_ext
     [example_item (JStr ''Example'') (JArr [JStr ''post'']) (JArr [JStr ''x'']) (JStr ''d'')
        example_page] =
   Inr [\<lparr> objectID = ''/example/#en'', lang = ''en'', title = JStr ''Example'',
          url = JStr ''/example/'', description = JStr ''d'',
          fulltext = JStr ''line one\<newline>line two'', authors = Some [JStr ''Author X''],
          tags' = Some (JArr [JStr ''post'']) \<rparr>,
        \<lparr> objectID = ''/authors/x/#en'', lang = ''en'', title = JStr ''Author X'',
          url = JStr ''/authors/x/'', description = JStr ''About X'',
          fulltext = JStr ''About X'', authors = None, tags' = None \<rparr>,
        \<lparr> objectID = ''/tags/news/#en'', lang = ''en'', title = JUndefined,
          url = JUndefined, description = JStr ''News'',
          fulltext = JStr ''News'', authors = None, tags' = None \<rparr>]"
proof -
  let ?c = "[example_item (JStr ''Example'') (JArr [JStr ''post'']) (JArr [JStr ''x''])
      (JStr ''d'') example_page]"
  have sel: "eleventyPosts example_ext ?c = Inr ?c"
    by (simp add: selector_defs example_defs)
  have p: "posts example_ext ?c =
     Inr [\<lparr> objectID = ''/example/#en'', lang = ''en'', title = JStr ''Example'',
          url = JStr ''/example/'', description = JStr ''d'',
          fulltext = JStr ''line one\<newline>line two'', authors = Some [JStr ''Author X''],
          tags' = Some (JArr [JStr ''post'']) \<rparr>]"
    unfolding posts_def sel by (simp add: mapper_defs example_defs)
  have a: "authors_records example_ext ?c =
     Inr [\<lparr> objectID = ''/authors/x/#en'', lang = ''en'', title = JStr ''Author X'',
          url = JStr ''/authors/x/'', description = JStr ''About X'',
          fulltext = JStr ''About X'', authors = None, tags' = None \<rparr>]"
    by (simp add: authors_records_def mapper_defs example_defs)
  have n: "newsletters example_ext ?c = Inr []"
    by (simp add: newsletters_def example_ext_def)
  have t: "tags_records example_ext ?c =
     Inr [\<lparr> objectID = ''/tags/news/#en'', lang = ''en'', title = JUndefined,
          url = JUndefined, description = JStr ''News'',
          fulltext = JStr ''News'', authors = None, tags' = None \<rparr>]"
    by (simp add: tags_records_def mapper_defs example_defs)
  show ?thesis
    by (rule C9_concatenation[THEN conjunct1, THEN iffD2])
      (intro exI conjI, rule p, rule a, rule n, rule t, simp)
qed

end
